theory Spec2Isabelle
  imports
    Main
    "HOL-Library.Sublist"
    "HOL-Library.Char_ord"
    "HOL-Library.List_Lexorder"
    "HOL-Library.Product_Lexorder"
begin

section \<open>pypicloud.util: an embedding of the utility module\<close>

text \<open>
  The module is Python 2 code (\<^verbatim>\<open>xrange\<close>, \<^verbatim>\<open>from __future__ import division\<close>).
  A Python \<^verbatim>\<open>str\<close> is a byte string and is modelled as \<^typ>\<open>string\<close>, a list of
  8-bit characters. Exceptions are values of a sum type, \<open>Inl\<close> carrying the exception.
\<close>

subsection \<open>Python string primitives used by the module\<close>

text \<open>\<^verbatim>\<open>s.endswith(ext)\<close>: the last \<open>length ext\<close> characters of \<open>s\<close> are \<open>ext\<close>.\<close>

definition endswith :: "string \<Rightarrow> string \<Rightarrow> bool" where
  "endswith s ext = (length ext \<le> length s \<and> drop (length s - length ext) s = ext)"

text \<open>\<^verbatim>\<open>sub in s\<close> on strings: \<open>sub\<close> occurs in \<open>s\<close> as a contiguous block.\<close>

fun contains :: "string \<Rightarrow> string \<Rightarrow> bool" where
  "contains [] sub = (sub = [])"
| "contains (c # cs) sub = (take (length sub) (c # cs) = sub \<or> contains cs sub)"

text \<open>
  \<^verbatim>\<open>str.lower()\<close> of a Python 2 byte string: the ASCII letters \<open>A\<close> to \<open>Z\<close> (codes
  65 to 90) move to \<open>a\<close> to \<open>z\<close>, every other byte stays.
\<close>

definition lower_char :: "char \<Rightarrow> char" where
  "lower_char c =
     (if 65 \<le> (of_char c :: nat) \<and> (of_char c :: nat) \<le> 90
      then char_of ((of_char c :: nat) + 32) else c)"

definition lower :: "string \<Rightarrow> string" where
  "lower s = map lower_char s"

subsection \<open>normalize_name\<close>

text \<open>
  \<^verbatim>\<open>re.sub(r"[-_.]+", "-", name).lower()\<close>. The character class of the pattern is
  \<open>is_sep\<close>; \<open>re_sub_seps\<close> scans from the left and replaces each maximal run of class
  characters (the greedy \<open>+\<close>) by one hyphen.
\<close>

definition is_sep :: "char \<Rightarrow> bool" where
  "is_sep c = (c = CHR ''-'' \<or> c = CHR ''_'' \<or> c = CHR ''.'')"

function re_sub_seps :: "string \<Rightarrow> string" where
  "re_sub_seps [] = []"
| "re_sub_seps (c # cs) =
     (if is_sep c then CHR ''-'' # re_sub_seps (dropWhile is_sep cs)
      else c # re_sub_seps cs)"
  by pat_completeness auto
termination
  by (relation "measure length") (auto simp: less_Suc_eq_le length_dropWhile_le)

definition normalize_name :: "string \<Rightarrow> string" where
  "normalize_name name = lower (re_sub_seps name)"

subsection \<open>parse_filename\<close>

datatype error = ValueError string | AssertionError

text \<open>
  \<^verbatim>\<open>ALL_EXTENSIONS\<close> (the concatenation of two tables of distlib's \<^verbatim>\<open>Locator\<close>) and
  \<^verbatim>\<open>split_filename\<close> are imported from the distlib package, which is not part of this
  repository: both are parameters of the model. \<^verbatim>\<open>split_filename(trimmed, name)\<close>
  returns \<^verbatim>\<open>None\<close> or a triple (name, version, python version), of which
  \<^verbatim>\<open>parsed[:2]\<close> keeps the first two components.
\<close>

type_synonym 'p splitter = "string \<Rightarrow> string option \<Rightarrow> (string \<times> string \<times> 'p) option"

text \<open>
  \<^verbatim>\<open>filename[:-len(ext)]\<close>. For an empty \<open>ext\<close> the slice is \<^verbatim>\<open>filename[:-0]\<close>, that
  is \<^verbatim>\<open>filename[:0]\<close>, the empty string.
\<close>

definition trimmed :: "string \<Rightarrow> string \<Rightarrow> string" where
  "trimmed filename ext =
     (if length ext = 0 then [] else take (length filename - length ext) filename)"

text \<open>
  The \<^verbatim>\<open>for ext in ALL_EXTENSIONS\<close> loop. Its result is the pair
  \<^verbatim>\<open>(parsed_name, version)\<close> when the loop assigned them, and \<open>None\<close> when
  \<^verbatim>\<open>version\<close> still is \<^verbatim>\<open>None\<close> after the loop. Both branches under a matching
  suffix end in \<^verbatim>\<open>break\<close>: no later extension is looked at.
\<close>

fun ext_loop :: "'p splitter \<Rightarrow> string list \<Rightarrow> string \<Rightarrow> string option \<Rightarrow> (string \<times> string) option" where
  "ext_loop split_filename [] filename name = None"
| "ext_loop split_filename (ext # exts) filename name =
     (if endswith filename ext then
        (case split_filename (trimmed filename ext) name of
           None \<Rightarrow> None
         | Some (parsed_name, version, pyver) \<Rightarrow> Some (parsed_name, version))
      else ext_loop split_filename exts filename name)"

text \<open>\<^verbatim>\<open>"Cannot parse package file '%s'" % filename\<close>\<close>

definition cannot_parse :: "string \<Rightarrow> string" where
  "cannot_parse filename = ''Cannot parse package file '' @ CHR 0x27 # filename @ [CHR 0x27]"

definition parse_filename ::
  "string list \<Rightarrow> 'p splitter \<Rightarrow> string \<Rightarrow> string option \<Rightarrow> error + (string \<times> string)" where
  "parse_filename ALL_EXTENSIONS split_filename filename name =
     (case ext_loop split_filename ALL_EXTENSIONS filename name of
        None \<Rightarrow> Inl (ValueError (cannot_parse filename))
      | Some (parsed_name, version) \<Rightarrow>
          Inr (normalize_name (case name of None \<Rightarrow> parsed_name | Some n \<Rightarrow> n), version))"

subsection \<open>BetterScrapingLocator\<close>





text \<open>\<^verbatim>\<open>posixpath.basename(p)\<close>: what follows the last slash of \<open>p\<close>.\<close>

definition basename :: "string \<Rightarrow> string" where
  "basename p = rev (takeWhile (\<lambda>c. c \<noteq> CHR ''/'') (rev p))"



subsection \<open>getdefaults\<close>

text \<open>
  \<^verbatim>\<open>getdefaults(settings, *args)\<close> with \<open>args = keys @ [dflt]\<close>, so that
  \<^verbatim>\<open>args[:-1]\<close> is \<open>keys\<close> and \<^verbatim>\<open>args[-1]\<close>, the default, is \<open>dflt\<close>. The dict is a map. The
  result carries the records given to \<^verbatim>\<open>LOG.warn\<close>, each the pair (key, canonical) of
  the message's arguments.
\<close>

fun getdefaults_loop :: "('k \<rightharpoonup> 'v) \<Rightarrow> 'k \<Rightarrow> 'k list \<Rightarrow> 'v \<Rightarrow> 'v \<times> ('k \<times> 'k) list" where
  "getdefaults_loop settings canonical [] dflt = (dflt, [])"
| "getdefaults_loop settings canonical (key # keys) dflt =
     (case settings key of
        Some v \<Rightarrow> (v, if key \<noteq> canonical then [(key, canonical)] else [])
      | None \<Rightarrow> getdefaults_loop settings canonical keys dflt)"

definition getdefaults ::
  "('k \<rightharpoonup> 'v) \<Rightarrow> 'k list \<Rightarrow> 'v \<Rightarrow> error + 'v \<times> ('k \<times> 'k) list" where
  "getdefaults settings keys dflt =
     (if length keys + 1 < 3 then Inl AssertionError
      else Inr (getdefaults_loop settings (hd keys) keys dflt))"

subsection \<open>retry\<close>

text \<open>
  The target \<^verbatim>\<open>fn(*args, **kwargs)\<close> is a step on a state \<open>'s\<close> (whatever the call
  reads and changes): it raises an exception (\<open>Inl\<close>) or returns a value (\<open>Inr\<close>).
  \<open>exceptions\<close> tells which exceptions the \<^verbatim>\<open>except\<close> clause catches.
\<close>

type_synonym ('s, 'e, 'v) target = "'s \<Rightarrow> ('e + 'v) \<times> 's"

text \<open>\<^verbatim>\<open>xrange(tries)\<close>: the integers from 0 to \<open>tries - 1\<close>, none when \<open>tries \<le> 0\<close>.\<close>

definition xrange :: "int \<Rightarrow> int list" where
  "xrange n = [0..n - 1]"

text \<open>
  The body of \<^verbatim>\<open>retrying_wrapper\<close>, over the values of \<open>n\<close> still to come. A loop that
  runs out falls off the end of the function, which returns \<^verbatim>\<open>None\<close>: \<open>Inr None\<close>.
  An exception that \<open>exceptions\<close> does not catch leaves the function at once.
\<close>

fun retrying_loop ::
  "int \<Rightarrow> ('e \<Rightarrow> bool) \<Rightarrow> ('s, 'e, 'v) target \<Rightarrow> int list \<Rightarrow> 's \<Rightarrow> ('e + 'v option) \<times> 's" where
  "retrying_loop tries exceptions fn [] s = (Inr None, s)"
| "retrying_loop tries exceptions fn (n # ns) s =
     (case fn s of
        (Inr v, s') \<Rightarrow> (Inr (Some v), s')
      | (Inl e, s') \<Rightarrow>
          if exceptions e
          then (if n = tries - 1 then (Inl e, s')
                else retrying_loop tries exceptions fn ns s')
          else (Inl e, s'))"

definition retry ::
  "int \<Rightarrow> ('e \<Rightarrow> bool) \<Rightarrow> ('s, 'e, 'v) target \<Rightarrow> 's \<Rightarrow> ('e + 'v option) \<times> 's" where
  "retry tries exceptions fn s = retrying_loop tries exceptions fn (xrange tries) s"

text \<open>
  Observing the calls of a target: \<open>nth_state fn s i\<close> is the state after \<open>i\<close> calls
  in a row from \<open>s\<close>, \<open>outcome fn s i\<close> what call number \<open>i + 1\<close> raises or returns,
  and \<open>counted fn\<close> is \<open>fn\<close> with a counter of its calls added to the state.
\<close>

definition nth_state :: "('s, 'e, 'v) target \<Rightarrow> 's \<Rightarrow> nat \<Rightarrow> 's" where
  "nth_state fn s i = ((\<lambda>x. snd (fn x)) ^^ i) s"

definition outcome :: "('s, 'e, 'v) target \<Rightarrow> 's \<Rightarrow> nat \<Rightarrow> 'e + 'v" where
  "outcome fn s i = fst (fn (nth_state fn s i))"

definition counted :: "('s, 'e, 'v) target \<Rightarrow> (nat \<times> 's, 'e, 'v) target" where
  "counted fn = (\<lambda>(c, s). case fn s of (r, s') \<Rightarrow> (r, (Suc c, s')))"

definition designated_failure :: "('e \<Rightarrow> bool) \<Rightarrow> 'e + 'v \<Rightarrow> bool" where
  "designated_failure exceptions r = (case r of Inl e \<Rightarrow> exceptions e | Inr v \<Rightarrow> False)"

subsection \<open>Sample collaborators for the closed examples\<close>

text \<open>
  The examples below need values for the parameters. \<open>sample_extensions\<close> lists
  source suffixes, then binary ones, in the manner of distlib. \<open>sample_split\<close> is a small
  splitter of the shape of distlib's \<^verbatim>\<open>split_filename\<close>: it cuts at the first hyphen
  and accepts a version made of digits and dots; it does not use the hint.
  \<open>sample_urlparse\<close> knows two URLs. \<open>sample_super_locate\<close> is an inherited
  \<^verbatim>\<open>locate\<close> that finds nothing and leaves the object as it is.
  \<open>fails_twice\<close> is a target that raises on its first two calls, with the number of
  the call as the exception, and returns 7 from the third call on.
\<close>

definition sample_extensions :: "string list" where
  "sample_extensions =
     [''.tar.gz'', ''.tar.bz2'', ''.tar'', ''.zip'', ''.tgz'', ''.tbz'', ''.egg'', ''.exe'', ''.whl'']"

definition sample_split :: "unit splitter" where
  "sample_split s name =
     (let n = takeWhile (\<lambda>c. c \<noteq> CHR ''-'') s;
          v = drop (length n + 1) s
      in if n \<noteq> [] \<and> v \<noteq> [] \<and> list_all (\<lambda>c. c \<in> set ''0123456789.'') v
         then Some (n, v, ()) else None)"



definition fails_twice :: "(nat, nat, int) target" where
  "fails_twice calls = (if calls < 2 then Inl (Suc calls) else Inr 7, Suc calls)"

section \<open>Properties\<close>

subsection \<open>Lower-casing and the separator class\<close>






subsection \<open>normalize_name\<close>




lemma normalize_name_example: "normalize_name ''Foo_Bar.Baz'' = ''foo-bar-baz''"
  by (simp add: normalize_name_def lower_def lower_char_def is_sep_def char_of_def bit_Suc_0_iff)


subsection \<open>parse_filename\<close>

lemma endswith_suffix: "endswith s ext \<longleftrightarrow> suffix ext s"
  by (auto simp: endswith_def suffix_def dest: arg_cong [where f = length])
     (metis append_take_drop_id)








text \<open>
  Claim C1, as stated, fails: with the hint \<open>bar\<close> the split of \<open>foo-1.0\<close> produces
  the name \<open>foo\<close>, and the name returned is \<open>bar\<close>.
\<close>

theorem parse_filename_split_name_counterexample:
  "parse_filename sample_extensions sample_split ''foo-1.0.tar.gz'' (Some ''bar'')
     = Inr (''bar'', ''1.0'')
   \<and> sample_split (trimmed ''foo-1.0.tar.gz'' ''.tar.gz'') (Some ''bar'') = Some (''foo'', ''1.0'', ())
   \<and> ''bar'' \<noteq> normalize_name ''foo''"
  by code_simp

text \<open>
  Claim C1, amended. For every filename that \<^verbatim>\<open>parse_filename\<close> parses with a hint
  name supplied, the name of the returned pair is \<^verbatim>\<open>normalize_name\<close> of the hint; the
  name the split produced is not used.
\<close>

theorem parse_filename_hint_name:
  assumes "parse_filename exts split filename (Some hint) = Inr (n, v)"
  shows "n = normalize_name hint"
  using assms by (auto simp: parse_filename_def split: option.splits)

theorem parse_filename_hint_name_witness:
  "parse_filename sample_extensions sample_split ''foo-1.0.tar.gz'' (Some ''Bar_Baz'')
     = Inr (''bar-baz'', ''1.0'')
   \<and> ''bar-baz'' = normalize_name ''Bar_Baz''"
proof -
  have run: "parse_filename sample_extensions sample_split ''foo-1.0.tar.gz'' (Some ''Bar_Baz'')
     = Inr (''bar-baz'', ''1.0'')"
    by code_simp
  from parse_filename_hint_name [OF run] run show ?thesis by simp
qed

subsection \<open>retry\<close>


lemma nth_state_0: "nth_state fn s 0 = s"
  by (simp add: nth_state_def)

lemma nth_state_shift: "nth_state fn (snd (fn s)) i = nth_state fn s (Suc i)"
  by (induction i) (simp_all add: nth_state_def)

lemma outcome_shift: "outcome fn (snd (fn s)) i = outcome fn s (Suc i)"
  by (simp add: outcome_def nth_state_shift)

lemma nth_state_step: "fn s = (r, s') \<Longrightarrow> nth_state fn s (Suc i) = nth_state fn s' i"
  using nth_state_shift [of fn s i] by simp

lemma outcome_step: "fn s = (r, s') \<Longrightarrow> outcome fn s (Suc i) = outcome fn s' i"
  using outcome_shift [of fn s i] by simp

lemma nth_state_counted: "nth_state (counted fn) (c, s) i = (c + i, nth_state fn s i)"
  by (induction i) (simp_all add: nth_state_def counted_def split: prod.splits)

lemma outcome_counted: "outcome (counted fn) (c, s) i = outcome fn s i"
  by (simp add: outcome_def nth_state_counted) (simp add: counted_def split: prod.splits)

text \<open>
  The loop from iteration \<open>m\<close> on: a return at call \<open>j + 1\<close> after \<open>j\<close> designated
  failures ends it with that value; designated failures up to the last iteration end
  it with the last exception.
\<close>

lemma retrying_loop_success:
  assumes "\<forall>i<j. designated_failure exceptions (outcome fn s i)"
    and "outcome fn s j = Inr v"
    and "m + int j \<le> tries - 1"
  shows "retrying_loop tries exceptions fn [m..tries - 1] s = (Inr (Some v), nth_state fn s (Suc j))"
  using assms
proof (induction j arbitrary: m s)
  case 0
  then have "[m..tries - 1] = m # [m + 1..tries - 1]"
    by (simp add: upto_rec1)
  moreover from 0 have "fst (fn s) = Inr v"
    by (simp add: outcome_def nth_state_0)
  ultimately show ?case
    by (cases "fn s") (simp add: nth_state_def)
next
  case (Suc j)
  from Suc.prems have list: "[m..tries - 1] = m # [m + 1..tries - 1]" and not_last: "m \<noteq> tries - 1"
    by (simp_all add: upto_rec1)
  from Suc.prems(1) have "designated_failure exceptions (outcome fn s 0)"
    by blast
  then obtain e where e: "fst (fn s) = Inl e" "exceptions e"
    by (auto simp: designated_failure_def outcome_def nth_state_0 split: sum.splits)
  have "retrying_loop tries exceptions fn [m + 1..tries - 1] (snd (fn s))
      = (Inr (Some v), nth_state fn (snd (fn s)) (Suc j))"
  proof (rule Suc.IH)
    show "\<forall>i<j. designated_failure exceptions (outcome fn (snd (fn s)) i)"
      using Suc.prems(1) by (simp add: outcome_shift)
    show "outcome fn (snd (fn s)) j = Inr v"
      using Suc.prems(2) by (simp add: outcome_shift)
    show "m + 1 + int j \<le> tries - 1"
      using Suc.prems(3) by simp
  qed
  with list not_last e show ?case
    by (cases "fn s") (simp add: nth_state_step)
qed

lemma retrying_loop_exhausted:
  assumes "\<forall>i\<le>j. designated_failure exceptions (outcome fn s i)"
    and "m + int j = tries - 1"
  shows "\<exists>e. outcome fn s j = Inl e \<and>
    retrying_loop tries exceptions fn [m..tries - 1] s = (Inl e, nth_state fn s (Suc j))"
  using assms
proof (induction j arbitrary: m s)
  case 0
  then have list: "[m..tries - 1] = [m]" and last: "m = tries - 1"
    by simp_all
  from 0 obtain e where e: "fst (fn s) = Inl e" "exceptions e"
    by (auto simp: designated_failure_def outcome_def nth_state_0 split: sum.splits)
  with last show ?case
    unfolding list by (cases "fn s") (simp add: outcome_def nth_state_def)
next
  case (Suc j)
  from Suc.prems have list: "[m..tries - 1] = m # [m + 1..tries - 1]" and not_last: "m \<noteq> tries - 1"
    by (simp_all add: upto_rec1)
  from Suc.prems(1) have "designated_failure exceptions (outcome fn s 0)"
    by blast
  then obtain e where e: "fst (fn s) = Inl e" "exceptions e"
    by (auto simp: designated_failure_def outcome_def nth_state_0 split: sum.splits)
  have "\<exists>e'. outcome fn (snd (fn s)) j = Inl e' \<and>
      retrying_loop tries exceptions fn [m + 1..tries - 1] (snd (fn s))
        = (Inl e', nth_state fn (snd (fn s)) (Suc j))"
  proof (rule Suc.IH)
    show "\<forall>i\<le>j. designated_failure exceptions (outcome fn (snd (fn s)) i)"
      using Suc.prems(1) by (simp add: outcome_shift)
    show "m + 1 + int j = tries - 1"
      using Suc.prems(2) by simp
  qed
  with list not_last e show ?case
    by (cases "fn s") (auto simp: nth_state_step outcome_step)
qed

text \<open>
  Claim C3. For every target and every \<open>tries \<ge> 1\<close>: if the target raises a designated
  exception on its first \<open>k - 1\<close> calls (\<open>k \<le> tries\<close>) and returns \<open>v\<close> on call \<open>k\<close>,
  the wrapped call returns \<open>v\<close> and has called the target exactly \<open>k\<close> times; if the
  target raises a designated exception on each of \<open>tries\<close> calls, the wrapped call has
  called it exactly \<open>tries\<close> times and raises the exception of the last call.
\<close>

theorem retry_attempts:
  assumes "1 \<le> tries"
  shows "(1 \<le> k \<and> int k \<le> tries \<and>
          (\<forall>i<k - 1. designated_failure exceptions (outcome fn s i)) \<and>
          outcome fn s (k - 1) = Inr v
          \<longrightarrow> retry tries exceptions (counted fn) (0, s) = (Inr (Some v), (k, nth_state fn s k)))
       \<and> ((\<forall>i<nat tries. designated_failure exceptions (outcome fn s i))
          \<longrightarrow> (\<exists>e. outcome fn s (nat tries - 1) = Inl e \<and>
                retry tries exceptions (counted fn) (0, s)
                  = (Inl e, (nat tries, nth_state fn s (nat tries)))))"
proof (intro conjI impI)
  assume k: "1 \<le> k \<and> int k \<le> tries \<and>
          (\<forall>i<k - 1. designated_failure exceptions (outcome fn s i)) \<and>
          outcome fn s (k - 1) = Inr v"
  then have "retrying_loop tries exceptions (counted fn) [0..tries - 1] (0, s)
      = (Inr (Some v), nth_state (counted fn) (0, s) (Suc (k - 1)))"
    by (intro retrying_loop_success) (simp_all add: outcome_counted)
  with k show "retry tries exceptions (counted fn) (0, s) = (Inr (Some v), (k, nth_state fn s k))"
    by (simp add: retry_def xrange_def nth_state_counted)
next
  assume all: "\<forall>i<nat tries. designated_failure exceptions (outcome fn s i)"
  with assms have "\<exists>e. outcome (counted fn) (0, s) (nat tries - 1) = Inl e \<and>
      retrying_loop tries exceptions (counted fn) [0..tries - 1] (0, s)
        = (Inl e, nth_state (counted fn) (0, s) (Suc (nat tries - 1)))"
    by (intro retrying_loop_exhausted) (auto simp: outcome_counted)
  with assms show "\<exists>e. outcome fn s (nat tries - 1) = Inl e \<and>
      retry tries exceptions (counted fn) (0, s) = (Inl e, (nat tries, nth_state fn s (nat tries)))"
    by (simp add: retry_def xrange_def nth_state_counted outcome_counted)
qed


theorem retry_attempts_witness:
  "retry 3 (\<lambda>e. True) (counted fails_twice) (0, 0) = (Inr (Some 7), (3, 3))
   \<and> retry 2 (\<lambda>e. True) (counted fails_twice) (0, 0) = (Inl 2, (2, 2))"
proof -
  have o0: "outcome fails_twice 0 0 = Inl 1"
    and o1: "outcome fails_twice 0 1 = Inl 2"
    and o2: "outcome fails_twice 0 2 = Inr 7"
    and s2: "nth_state fails_twice 0 2 = 2"
    and s3: "nth_state fails_twice 0 3 = 3"
    by (simp_all add: outcome_def nth_state_def fails_twice_def eval_nat_numeral)
  have fails: "\<forall>i<2. designated_failure (\<lambda>e. True) (outcome fails_twice 0 i)"
    using o0 o1 by (auto simp: less_2_cases_iff designated_failure_def)
  have third: "retry 3 (\<lambda>e. True) (counted fails_twice) (0, 0) = (Inr (Some 7), (3, 3))"
    using retry_attempts [where tries = 3 and k = 3 and exceptions = "\<lambda>e. True"
        and fn = fails_twice and s = 0 and v = 7] fails o2 s3
    by simp
  have second: "retry 2 (\<lambda>e. True) (counted fails_twice) (0, 0) = (Inl 2, (2, 2))"
    using retry_attempts [where tries = 2 and k = 0 and exceptions = "\<lambda>e. True"
        and fn = fails_twice and s = 0 and v = 7] fails o1 s2
    by simp
  from third second show ?thesis by simp
qed

text \<open>
  Claim C10. With \<open>tries = 0\<close> the wrapped call returns \<^verbatim>\<open>None\<close> and never calls the
  target: the state, and a counter of the calls, are as before.
\<close>

theorem retry_zero_tries:
  "retry 0 exceptions fn s = (Inr None, s)
   \<and> retry 0 exceptions (counted fn) (c, s) = (Inr None, (c, s))"
  by (simp add: retry_def xrange_def)


subsection \<open>BetterScrapingLocator\<close>

lemma take_prefix_iff: "take (length sub) s = sub \<longleftrightarrow> prefix sub s"
  by (metis append_eq_conv_conj prefix_def)

lemma contains_sublist: "contains s sub \<longleftrightarrow> sublist sub s"
  by (induction s) (simp_all add: sublist_Cons_right take_prefix_iff del: take_Suc_Cons)

lemma basename_no_slash: "CHR ''/'' \<notin> set (basename p)"
  unfolding basename_def set_rev using set_takeWhileD by fastforce

lemma basename_suffix: "suffix (basename p) p"
  unfolding basename_def
  by (metis rev_rev_ident suffix_to_prefix takeWhile_is_prefix)






subsection \<open>getdefaults\<close>

lemma getdefaults_loop_find:
  "getdefaults_loop settings canonical keys dflt =
     (case find (\<lambda>k. k \<in> dom settings) keys of
        None \<Rightarrow> (dflt, [])
      | Some k \<Rightarrow> (the (settings k), if k = canonical then [] else [(k, canonical)]))"
  by (induction keys) (auto split: option.splits)

lemma getdefaults_too_few:
  "length keys < 2 \<Longrightarrow> getdefaults settings keys dflt = Inl AssertionError"
  by (simp add: getdefaults_def)

text \<open>
  Claim C7. For every settings dict, every list of at least two keys and every
  default, \<^verbatim>\<open>getdefaults\<close> returns the value of the first key of the list that is in
  the dict, or the default when none is; it logs a deprecation warning exactly when
  that first present key is not the first key of the list.
\<close>

theorem getdefaults_first_present:
  assumes "2 \<le> length keys"
  shows "getdefaults settings keys dflt =
     Inr (case find (\<lambda>k. k \<in> dom settings) keys of
            None \<Rightarrow> (dflt, [])
          | Some k \<Rightarrow> (the (settings k), if k = hd keys then [] else [(k, hd keys)]))"
  using assms by (simp add: getdefaults_def getdefaults_loop_find)

theorem getdefaults_first_present_witness:
  "getdefaults [''new_key'' \<mapsto> ''v''] [''new_key'', ''old_key''] ''default'' = Inr (''v'', [])
   \<and> getdefaults [''old_key'' \<mapsto> ''v''] [''new_key'', ''old_key''] ''default''
       = Inr (''v'', [(''old_key'', ''new_key'')])
   \<and> getdefaults (Map.empty :: string \<rightharpoonup> string) [''new_key'', ''old_key''] ''default''
       = Inr (''default'', [])"
  using getdefaults_first_present [of "[''new_key'', ''old_key'']" "[''new_key'' \<mapsto> ''v'']" "''default''"]
    getdefaults_first_present [of "[''new_key'', ''old_key'']" "[''old_key'' \<mapsto> ''v'']" "''default''"]
    getdefaults_first_present [of "[''new_key'', ''old_key'']" "Map.empty :: string \<rightharpoonup> string" "''default''"]
  by simp

end
